theory Spec2Isabelle
  imports Complex_Main
begin

section \<open>Values and dictionaries\<close>

text \<open>
  The Python sources type contexts and handler results as \<^verbatim>\<open>Dict[str, Any]\<close>.
  \<open>pyval\<close> is the part of \<^verbatim>\<open>Any\<close> that the statements below need: \<^verbatim>\<open>None\<close>,
  booleans, integers, strings and dictionaries, nested to any depth (lists and floats
  are left out). A dictionary is a partial map from keys to values: \<open>d ++ e\<close> is
  \<^verbatim>\<open>d.update(e)\<close> on a copy of \<open>d\<close>, \<open>d k\<close> is \<^verbatim>\<open>d.get(k)\<close>, and a dictionary is
  truthy when it is not empty. Values are compared by content; the identity of a
  dictionary object is not part of the model.
\<close>

datatype pyval =
    PNone
  | PBool bool
  | PInt int
  | PStr string
  | PDict "string \<Rightarrow> pyval option"

type_synonym pydict = "string \<Rightarrow> pyval option"

type_synonym session_id = string

fun truthy :: "pyval \<Rightarrow> bool" where
  "truthy PNone = False"
| "truthy (PBool b) = b"
| "truthy (PInt i) = (i \<noteq> 0)"
| "truthy (PStr s) = (s \<noteq> [])"
| "truthy (PDict d) = (d \<noteq> Map.empty)"

section \<open>The session context store (app/storage/context\_store.py)\<close>

text \<open>
  The in-memory backend of \<^verbatim>\<open>ContextStore\<close>, which is the one selected when the
  environment does not set \<^verbatim>\<open>USE_REDIS\<close>. The two dictionaries of the object are
  the two maps of the record; \<open>context_ttl\<close> is the integer read from the environment.
  Every reading of \<^verbatim>\<open>time.time()\<close> is an argument of the operation that takes it,
  in the order in which the code reads the clock; a reading is a real number (the
  seconds of the float, without its rounding). Each operation returns its result and
  the store after it. The \<^verbatim>\<open>except\<close> branches of the operations are reached from one
  place only, the \<^verbatim>\<open>KeyError\<close> of \<^verbatim>\<open>get_context\<close> for a session with data and no
  timestamp, which makes it return \<^verbatim>\<open>None\<close>.
\<close>

record ContextStore =
  context_ttl :: int
  memory_store :: "session_id \<Rightarrow> pydict option"
  memory_timestamps :: "session_id \<Rightarrow> real option"

definition init_memory_store :: "int \<Rightarrow> ContextStore" where
  "init_memory_store ttl =
     \<lparr>context_ttl = ttl, memory_store = Map.empty, memory_timestamps = Map.empty\<rparr>"

definition expired :: "ContextStore \<Rightarrow> real \<Rightarrow> session_id \<Rightarrow> bool" where
  "expired st current_time sid =
     (case memory_timestamps st sid of
        None \<Rightarrow> False
      | Some timestamp \<Rightarrow> current_time - timestamp > real_of_int (context_ttl st))"

definition clean_expired_sessions :: "real \<Rightarrow> ContextStore \<Rightarrow> ContextStore" where
  "clean_expired_sessions current_time st =
     st\<lparr>memory_store := (\<lambda>sid. if expired st current_time sid then None else memory_store st sid),
        memory_timestamps :=
          (\<lambda>sid. if expired st current_time sid then None else memory_timestamps st sid)\<rparr>"

definition store_context ::
  "real \<Rightarrow> real \<Rightarrow> session_id \<Rightarrow> pydict \<Rightarrow> ContextStore \<Rightarrow> bool \<times> ContextStore" where
  "store_context now current_time sid ctx st =
     (let st1 = st\<lparr>memory_store := (memory_store st)(sid \<mapsto> ctx),
                   memory_timestamps := (memory_timestamps st)(sid \<mapsto> now)\<rparr>
      in (True,
          if card (dom (memory_store st1)) mod 10 = 0
          then clean_expired_sessions current_time st1
          else st1))"

definition get_context ::
  "real \<Rightarrow> real \<Rightarrow> session_id \<Rightarrow> ContextStore \<Rightarrow> pydict option \<times> ContextStore" where
  "get_context now now2 sid st =
     (case memory_store st sid of
        None \<Rightarrow> (None, st)
      | Some ctx \<Rightarrow>
          (case memory_timestamps st sid of
             None \<Rightarrow> (None, st)
           | Some timestamp \<Rightarrow>
               if now - timestamp \<le> real_of_int (context_ttl st)
               then (Some ctx, st\<lparr>memory_timestamps := (memory_timestamps st)(sid \<mapsto> now2)\<rparr>)
               else (None, st\<lparr>memory_store := (memory_store st)(sid := None),
                               memory_timestamps := (memory_timestamps st)(sid := None)\<rparr>)))"

text \<open>\<^verbatim>\<open>x or {}\<close> for an optional dictionary \<open>x\<close>.\<close>

definition or_empty :: "pydict option \<Rightarrow> pydict" where
  "or_empty r = (case r of None \<Rightarrow> Map.empty | Some d \<Rightarrow> if d = Map.empty then Map.empty else d)"

definition update_context ::
  "real \<Rightarrow> real \<Rightarrow> real \<Rightarrow> real \<Rightarrow> session_id \<Rightarrow> pydict \<Rightarrow> ContextStore \<Rightarrow> bool \<times> ContextStore" where
  "update_context t1 t2 t3 t4 sid update_data st =
     (let (r, st1) = get_context t1 t2 sid st;
          existing_context = or_empty r ++ update_data
      in store_context t3 t4 sid existing_context st1)"

definition delete_context :: "session_id \<Rightarrow> ContextStore \<Rightarrow> bool \<times> ContextStore" where
  "delete_context sid st =
     (True, st\<lparr>memory_store := (memory_store st)(sid := None),
               memory_timestamps := (memory_timestamps st)(sid := None)\<rparr>)"

text \<open>A call of one of the operations of the store, with the clock readings it takes.\<close>

datatype store_call =
    CallStore real real session_id pydict
  | CallGet real real session_id
  | CallUpdate real real real real session_id pydict
  | CallDelete session_id
  | CallClean real

fun do_call :: "store_call \<Rightarrow> ContextStore \<Rightarrow> ContextStore" where
  "do_call (CallStore t1 t2 sid ctx) st = snd (store_context t1 t2 sid ctx st)"
| "do_call (CallGet t1 t2 sid) st = snd (get_context t1 t2 sid st)"
| "do_call (CallUpdate t1 t2 t3 t4 sid d) st = snd (update_context t1 t2 t3 t4 sid d st)"
| "do_call (CallDelete sid) st = snd (delete_context sid st)"
| "do_call (CallClean t) st = clean_expired_sessions t st"

definition do_calls :: "store_call list \<Rightarrow> ContextStore \<Rightarrow> ContextStore" where
  "do_calls cs st = fold do_call cs st"

definition keys_agree :: "ContextStore \<Rightarrow> bool" where
  "keys_agree st = (dom (memory_store st) = dom (memory_timestamps st))"

section \<open>The orchestrator (app/orchestrator/agent\_orchestrator.py)\<close>

text \<open>
  Exceptions are values. \<open>TypeError\<close>, \<open>ValueError\<close> and \<open>KeyError\<close> are raised by
  the interpreter; \<open>Raised\<close> is any exception of a collaborator (the classifier
  service, a handler), with the text that \<^verbatim>\<open>str(e)\<close> gives. \<open>exn_str\<close> is
  \<^verbatim>\<open>str(e)\<close>.
\<close>

datatype exn =
    TypeError string
  | ValueError string
  | KeyError string
  | Raised string

fun exn_str :: "exn \<Rightarrow> string" where
  "exn_str (TypeError m) = m"
| "exn_str (ValueError m) = m"
| "exn_str (KeyError k) = [CHR 0x27] @ k @ [CHR 0x27]"
| "exn_str (Raised m) = m"

text \<open>An entry of the history of a turn: the dictionary with the keys agent, input, output.\<close>

record history_entry =
  entry_agent :: string
  entry_input :: string
  entry_output :: pyval

record AgentState =
  user_input :: string
  "context" :: pydict
  history :: "history_entry list"
  current_agent :: "string option"
  "output" :: "pydict option"
  error :: "string option"

text \<open>
  \<^verbatim>\<open>state.dict()\<close> has one key for each field of the model, also for the fields that
  are \<^verbatim>\<open>None\<close>.
\<close>

definition AgentState_fields :: "string list" where
  "AgentState_fields =
     [''user_input'', ''context'', ''history'', ''current_agent'', ''output'', ''error'']"

definition multiple_values :: "string \<Rightarrow> string" where
  "multiple_values kw =
     ''AgentState() got multiple values for keyword argument '' @ [CHR 0x27] @ kw @ [CHR 0x27]"

text \<open>
  \<^verbatim>\<open>AgentState(**state.dict(), kw=v)\<close>: a call that passes the keyword \<open>kw\<close> both
  through the unpacked dictionary and explicitly. Python raises \<^verbatim>\<open>TypeError\<close> for a
  keyword given twice, before the constructor runs. \<open>set_kw\<close> is the state that the
  call would build from the dictionary and the keyword.
\<close>

definition AgentState_dict_and ::
  "AgentState \<Rightarrow> string \<Rightarrow> (AgentState \<Rightarrow> AgentState) \<Rightarrow> exn + AgentState" where
  "AgentState_dict_and state kw set_kw =
     (if kw \<in> set AgentState_fields then Inl (TypeError (multiple_values kw))
      else Inr (set_kw state))"

text \<open>
  \<^verbatim>\<open>str.strip()\<close> and \<^verbatim>\<open>str.lower()\<close> on ASCII text: the white space of
  \<^verbatim>\<open>str.isspace\<close> below code 128, and the letters A to Z.
\<close>

definition is_space :: "char \<Rightarrow> bool" where
  "is_space c = (c \<in> set [CHR 0x09, CHR 0x0A, CHR 0x0B, CHR 0x0C, CHR 0x0D,
                           CHR 0x1C, CHR 0x1D, CHR 0x1E, CHR 0x1F, CHR 0x20])"

definition strip :: "string \<Rightarrow> string" where
  "strip s = rev (dropWhile is_space (rev (dropWhile is_space s)))"

definition lower_char :: "char \<Rightarrow> char" where
  "lower_char c =
     (case map_of (zip ''ABCDEFGHIJKLMNOPQRSTUVWXYZ'' ''abcdefghijklmnopqrstuvwxyz'') c of
        None \<Rightarrow> c
      | Some l \<Rightarrow> l)"

definition lower :: "string \<Rightarrow> string" where
  "lower s = map lower_char s"

text \<open>
  The collaborators. A handler is the \<^verbatim>\<open>run(query, context)\<close> of an agent: it returns
  a dictionary or raises. The classifier is the chat completion call of
  \<^verbatim>\<open>_parse_intent\<close>: it returns the text of the first choice or raises. Neither is a
  function of its arguments alone (both call services), so each also takes the number
  of nodes that the turn has run before.
\<close>

type_synonym handler = "nat \<Rightarrow> string \<Rightarrow> pydict \<Rightarrow> exn + pydict"

record AgentOrchestrator =
  agents :: "string \<Rightarrow> handler option"
  classifier :: "nat \<Rightarrow> string \<Rightarrow> exn + string"

definition AgentOrchestrator_init ::
  "handler \<Rightarrow> handler \<Rightarrow> handler \<Rightarrow> handler \<Rightarrow> (nat \<Rightarrow> string \<Rightarrow> exn + string) \<Rightarrow>
   AgentOrchestrator" where
  "AgentOrchestrator_init GithubAgent ProposalValidatorAgent LeadGenerationAgent OutreachAgent
     chat =
     \<lparr>agents = [''github'' \<mapsto> GithubAgent,
                ''proposal_validator'' \<mapsto> ProposalValidatorAgent,
                ''lead_generation'' \<mapsto> LeadGenerationAgent,
                ''outreach'' \<mapsto> OutreachAgent],
      classifier = chat\<rparr>"

text \<open>
  The validation of \<^verbatim>\<open>_parse_intent\<close>: the answer of the classifier, stripped and in
  lower case, is kept when it is a key of \<^verbatim>\<open>self.agents\<close> and is \<^verbatim>\<open>None\<close> otherwise.
\<close>

definition resolve_agent :: "AgentOrchestrator \<Rightarrow> string \<Rightarrow> string option" where
  "resolve_agent self content =
     (let agent_name = lower (strip content)
      in if agent_name \<notin> dom (agents self) then None else Some agent_name)"

definition parse_intent_try :: "AgentOrchestrator \<Rightarrow> nat \<Rightarrow> AgentState \<Rightarrow> exn + AgentState" where
  "parse_intent_try self n state =
     (case classifier self n (user_input state) of
        Inl e \<Rightarrow> Inl e
      | Inr content \<Rightarrow>
          AgentState_dict_and state ''current_agent''
            (\<lambda>s. s\<lparr>current_agent := resolve_agent self content\<rparr>))"

definition parse_intent :: "AgentOrchestrator \<Rightarrow> nat \<Rightarrow> AgentState \<Rightarrow> exn + AgentState" where
  "parse_intent self n state =
     (case parse_intent_try self n state of
        Inr state' \<Rightarrow> Inr state'
      | Inl e \<Rightarrow>
          AgentState_dict_and state ''error''
            (\<lambda>s. s\<lparr>error := Some (''Error parsing intent: '' @ exn_str e)\<rparr>))"

definition should_route_to_github :: "AgentState \<Rightarrow> bool" where
  "should_route_to_github state = (current_agent state = Some ''github'')"

definition should_route_to_validator :: "AgentState \<Rightarrow> bool" where
  "should_route_to_validator state = (current_agent state = Some ''proposal_validator'')"

definition should_route_to_lead_gen :: "AgentState \<Rightarrow> bool" where
  "should_route_to_lead_gen state = (current_agent state = Some ''lead_generation'')"

definition should_route_to_outreach :: "AgentState \<Rightarrow> bool" where
  "should_route_to_outreach state = (current_agent state = Some ''outreach'')"

definition dict_get :: "pydict \<Rightarrow> string \<Rightarrow> pyval \<Rightarrow> pyval" where
  "dict_get d k dflt = (case d k of None \<Rightarrow> dflt | Some v \<Rightarrow> v)"

text \<open>
  \<^verbatim>\<open>d.update(v)\<close> on a copy of \<open>d\<close>, for a value \<open>v\<close> of any type. A dictionary is
  merged key by key. A string is read as a sequence of pairs: the empty string adds
  nothing, any other string raises \<^verbatim>\<open>ValueError\<close> (its elements have length 1).
  \<^verbatim>\<open>None\<close>, booleans and integers are not iterable and raise \<^verbatim>\<open>TypeError\<close>.
  \<open>fragment_of v\<close> is what an update by \<open>v\<close> writes when it succeeds.
\<close>

definition fragment_of :: "pyval \<Rightarrow> pydict" where
  "fragment_of v = (case v of PDict e \<Rightarrow> e | _ \<Rightarrow> Map.empty)"

definition dict_update :: "pydict \<Rightarrow> pyval \<Rightarrow> exn + pydict" where
  "dict_update d v =
     (case v of
        PDict e \<Rightarrow> Inr (d ++ e)
      | PStr s \<Rightarrow>
          if s = [] then Inr d
          else Inl (ValueError
                 ''dictionary update sequence element #0 has length 1; 2 is required'')
      | _ \<Rightarrow> Inl (TypeError ''object is not iterable''))"

text \<open>
  The four agent runners are one text with two parameters, the key of the agent and the
  label of its error message. \<open>run_agent_try\<close> is the body of the \<^verbatim>\<open>try\<close>.
\<close>

definition run_agent_try ::
  "AgentOrchestrator \<Rightarrow> nat \<Rightarrow> string \<Rightarrow> AgentState \<Rightarrow> exn + AgentState" where
  "run_agent_try self n name state =
     (case agents self name of
        None \<Rightarrow> Inl (KeyError name)
      | Some run \<Rightarrow>
          (case run n (user_input state) (context state) of
             Inl e \<Rightarrow> Inl e
           | Inr agent_result \<Rightarrow>
               (case dict_update (context state)
                       (dict_get agent_result ''context'' (PDict Map.empty)) of
                  Inl e \<Rightarrow> Inl e
                | Inr updated_context \<Rightarrow>
                    Inr \<lparr>user_input = user_input state,
                         context = updated_context,
                         history = history state @
                           [\<lparr>entry_agent = name, entry_input = user_input state,
                             entry_output = dict_get agent_result ''response'' (PStr [])\<rparr>],
                         current_agent = Some name,
                         output = Some agent_result,
                         error = None\<rparr>)))"

definition run_agent ::
  "string \<Rightarrow> string \<Rightarrow> AgentOrchestrator \<Rightarrow> nat \<Rightarrow> AgentState \<Rightarrow> exn + AgentState" where
  "run_agent name label self n state =
     (case run_agent_try self n name state of
        Inr state' \<Rightarrow> Inr state'
      | Inl e \<Rightarrow>
          AgentState_dict_and state ''error'' (\<lambda>s. s\<lparr>error := Some (label @ exn_str e)\<rparr>))"

definition run_github_agent :: "AgentOrchestrator \<Rightarrow> nat \<Rightarrow> AgentState \<Rightarrow> exn + AgentState" where
  "run_github_agent = run_agent ''github'' ''GitHub agent error: ''"

definition run_proposal_validator ::
  "AgentOrchestrator \<Rightarrow> nat \<Rightarrow> AgentState \<Rightarrow> exn + AgentState" where
  "run_proposal_validator = run_agent ''proposal_validator'' ''Proposal validator error: ''"

definition run_lead_generation ::
  "AgentOrchestrator \<Rightarrow> nat \<Rightarrow> AgentState \<Rightarrow> exn + AgentState" where
  "run_lead_generation = run_agent ''lead_generation'' ''Lead generation error: ''"

definition run_outreach :: "AgentOrchestrator \<Rightarrow> nat \<Rightarrow> AgentState \<Rightarrow> exn + AgentState" where
  "run_outreach = run_agent ''outreach'' ''Outreach agent error: ''"

text \<open>Truthiness of an optional string, as in \<^verbatim>\<open>if state.error:\<close>.\<close>

definition truthy_str :: "string option \<Rightarrow> bool" where
  "truthy_str x = (case x of None \<Rightarrow> False | Some s \<Rightarrow> s \<noteq> [])"

definition check_completion :: "AgentState \<Rightarrow> bool" where
  "check_completion state =
     (if truthy_str (error state) then True
      else if (case output state of
                 None \<Rightarrow> False
               | Some out \<Rightarrow> out \<noteq> Map.empty \<and> truthy (dict_get out ''complete'' (PBool False)))
      then True
      else False)"

text \<open>
  The graph of \<^verbatim>\<open>_build_workflow\<close>. The graph library is not part of the repository;
  the model runs the graph as the code sets it up: the run starts at the entry point
  (\<^verbatim>\<open>set_entry_point\<close>), a node is a function on the state (\<^verbatim>\<open>add_node\<close>), the edges
  out of parse\_intent are guarded by the four route conditions (\<^verbatim>\<open>add_edge\<close>), and
  each agent node goes to the end or back to parse\_intent as \<^verbatim>\<open>_check_completion\<close>
  says (\<^verbatim>\<open>add_conditional_edges\<close>). Where no edge out of parse\_intent is open the run
  ends with the state as it is. An exception of a node ends the run and is the
  exception of \<^verbatim>\<open>invoke\<close>. The statements about \<^verbatim>\<open>run_workflow\<close> below use two
  facts of this model only: the entry point runs first, and the exception of a node
  leaves \<^verbatim>\<open>invoke\<close>.
\<close>

datatype node =
    Node_parse_intent
  | Node_github_agent
  | Node_proposal_validator
  | Node_lead_generation
  | Node_outreach
  | END

fun run_node :: "AgentOrchestrator \<Rightarrow> nat \<Rightarrow> node \<Rightarrow> AgentState \<Rightarrow> exn + AgentState" where
  "run_node self n Node_parse_intent state = parse_intent self n state"
| "run_node self n Node_github_agent state = run_github_agent self n state"
| "run_node self n Node_proposal_validator state = run_proposal_validator self n state"
| "run_node self n Node_lead_generation state = run_lead_generation self n state"
| "run_node self n Node_outreach state = run_outreach self n state"
| "run_node self n END state = Inr state"

fun next_node :: "node \<Rightarrow> AgentState \<Rightarrow> node" where
  "next_node Node_parse_intent state =
     (if should_route_to_github state then Node_github_agent
      else if should_route_to_validator state then Node_proposal_validator
      else if should_route_to_lead_gen state then Node_lead_generation
      else if should_route_to_outreach state then Node_outreach
      else END)"
| "next_node END state = END"
| "next_node agent_node state = (if check_completion state then END else Node_parse_intent)"

text \<open>
  A run of the graph gives the nodes it has run, in order, and the final state or the
  exception. The run of a graph need not end, so the function is partial: \<open>None\<close> is
  the run that never returns.
\<close>

type_synonym run = "node list \<times> (exn + AgentState)"

partial_function (option) invoke_from ::
  "AgentOrchestrator \<Rightarrow> nat \<Rightarrow> node \<Rightarrow> AgentState \<Rightarrow> node list \<Rightarrow> run option" where
  "invoke_from self n nd state visited =
     (if nd = END then Some (visited, Inr state)
      else
        (case run_node self n nd state of
           Inl e \<Rightarrow> Some (visited @ [nd], Inl e)
         | Inr state' \<Rightarrow> invoke_from self (Suc n) (next_node nd state') state' (visited @ [nd])))"

definition workflow_invoke :: "AgentOrchestrator \<Rightarrow> AgentState \<Rightarrow> run option" where
  "workflow_invoke self initial_state = invoke_from self 0 Node_parse_intent initial_state []"

text \<open>
  \<^verbatim>\<open>run_workflow\<close>. The identifier that \<^verbatim>\<open>uuid.uuid4()\<close> would give and the four
  clock readings of the two calls of the store are arguments. Besides the dictionary
  that the code returns, the model gives the store after the call, the calls of the
  store that were made, and the nodes that were run. The fields of \<open>workflow_result\<close>
  are the four keys of the returned dictionary. \<open>run_workflow_with\<close> takes the
  compiled graph as its first argument, as the code takes it from \<^verbatim>\<open>self.workflow\<close>.
\<close>

record workflow_result =
  res_session_id :: string
  res_output :: "pyval option"
  res_error :: "string option"
  res_agent_used :: "string option"

definition effective_session_id :: "string option \<Rightarrow> string \<Rightarrow> string" where
  "effective_session_id session_id uuid4 =
     (case session_id of None \<Rightarrow> uuid4 | Some s \<Rightarrow> if s = [] then uuid4 else s)"

definition run_workflow_with ::
  "(AgentState \<Rightarrow> run option) \<Rightarrow> real \<Rightarrow> real \<Rightarrow> real \<Rightarrow> real \<Rightarrow> string \<Rightarrow> string \<Rightarrow>
   string option \<Rightarrow> ContextStore \<Rightarrow>
   (workflow_result \<times> ContextStore \<times> store_call list \<times> node list) option" where
  "run_workflow_with workflow t1 t2 t3 t4 uuid4 input session_id0 store =
     (let sid = effective_session_id session_id0 uuid4;
          (r, store1) = get_context t1 t2 sid store;
          initial_state = \<lparr>user_input = input, context = or_empty r, history = [],
                           current_agent = None, output = None, error = None\<rparr>
      in case workflow initial_state of
           None \<Rightarrow> None
         | Some (nodes, Inr final_state) \<Rightarrow>
             Some (\<lparr>res_session_id = sid,
                    res_output =
                      (case output final_state of
                         None \<Rightarrow> None
                       | Some out \<Rightarrow>
                           if out = Map.empty then None
                           else Some (dict_get out ''response'' (PStr []))),
                    res_error = error final_state,
                    res_agent_used = current_agent final_state\<rparr>,
                   if context final_state \<noteq> Map.empty
                   then snd (store_context t3 t4 sid (context final_state) store1)
                   else store1,
                   [CallGet t1 t2 sid] @
                     (if context final_state \<noteq> Map.empty
                      then [CallStore t3 t4 sid (context final_state)] else []),
                   nodes)
         | Some (nodes, Inl e) \<Rightarrow>
             Some (\<lparr>res_session_id = sid, res_output = None,
                    res_error = Some (''Workflow error: '' @ exn_str e),
                    res_agent_used = None\<rparr>,
                   store1, [CallGet t1 t2 sid], nodes))"

definition run_workflow ::
  "AgentOrchestrator \<Rightarrow> real \<Rightarrow> real \<Rightarrow> real \<Rightarrow> real \<Rightarrow> string \<Rightarrow> string \<Rightarrow>
   string option \<Rightarrow> ContextStore \<Rightarrow>
   (workflow_result \<times> ContextStore \<times> store_call list \<times> node list) option" where
  "run_workflow self = run_workflow_with (workflow_invoke self)"

section \<open>Examples\<close>

text \<open>
  The handler envelope and the collaborators of the two scenarios of the specification:
  a classifier that answers github with a github handler that reports three open
  issues, and a classifier that answers weather. \<open>silent\<close> is a handler that returns
  an empty dictionary.
\<close>

definition issues_envelope :: pydict where
  "issues_envelope =
     [''response'' \<mapsto> PStr ''3 open issues'',
      ''context'' \<mapsto> PDict [''github'' \<mapsto> PDict [''open_issues'' \<mapsto> PInt 3]],
      ''complete'' \<mapsto> PBool True]"

definition silent :: handler where
  "silent n query ctx = Inr Map.empty"

definition github_demo :: AgentOrchestrator where
  "github_demo =
     AgentOrchestrator_init (\<lambda>n query ctx. Inr issues_envelope) silent silent silent
       (\<lambda>n prompt. Inr ''github'')"

definition weather_demo :: AgentOrchestrator where
  "weather_demo =
     AgentOrchestrator_init (\<lambda>n query ctx. Inr issues_envelope) silent silent silent
       (\<lambda>n prompt. Inr ''weather'')"

text \<open>The state at the start of a turn, and a turn that starts from a stored context.\<close>

definition fresh_turn :: "string \<Rightarrow> pydict \<Rightarrow> AgentState" where
  "fresh_turn input ctx =
     \<lparr>user_input = input, context = ctx, history = [], current_agent = None,
      output = None, error = None\<rparr>"

definition earlier_turn :: AgentState where
  "earlier_turn =
     fresh_turn ''list open issues for owner/repo''
       [''github'' \<mapsto> PDict [''repo'' \<mapsto> PStr ''owner/repo'', ''open_issues'' \<mapsto> PInt 1],
        ''outreach'' \<mapsto> PInt 2]"



text \<open>
  Three compiled graphs for \<open>run_workflow_with\<close>: one that runs parse\_intent, finds no
  route and returns the state as it is, one that dispatches once and merges a key
  into the context, and one whose outreach node raises. \<open>store_calls_of\<close> is the list
  of calls of the store that \<^verbatim>\<open>run_workflow\<close> makes for an outcome of the graph.
\<close>

definition no_route_workflow :: "AgentState \<Rightarrow> run option" where
  "no_route_workflow state = Some ([Node_parse_intent], Inr state)"


definition failing_workflow :: "AgentState \<Rightarrow> run option" where
  "failing_workflow state = Some ([Node_parse_intent, Node_outreach], Inl (Raised ''boom''))"


section \<open>Predicates of the statements about the store\<close>

text \<open>
  For the round trip: a call is quiet for a session when it is not a write, an update or
  a delete of that session and all its clock readings lie in the given window; the
  session holds a context when the data dictionary has it and its timestamp is not
  older than the start of the window.
\<close>

definition in_window :: "real \<Rightarrow> real \<Rightarrow> real \<Rightarrow> bool" where
  "in_window lo hi t = (lo \<le> t \<and> t \<le> hi)"

fun quiet :: "session_id \<Rightarrow> real \<Rightarrow> real \<Rightarrow> store_call \<Rightarrow> bool" where
  "quiet sid lo hi (CallStore t1 t2 s ctx) = (s \<noteq> sid \<and> in_window lo hi t1 \<and> in_window lo hi t2)"
| "quiet sid lo hi (CallGet t1 t2 s) = (in_window lo hi t1 \<and> in_window lo hi t2)"
| "quiet sid lo hi (CallUpdate t1 t2 t3 t4 s d) =
     (s \<noteq> sid \<and> in_window lo hi t1 \<and> in_window lo hi t2 \<and> in_window lo hi t3 \<and> in_window lo hi t4)"
| "quiet sid lo hi (CallDelete s) = (s \<noteq> sid)"
| "quiet sid lo hi (CallClean t) = in_window lo hi t"

definition holds :: "session_id \<Rightarrow> pydict \<Rightarrow> real \<Rightarrow> ContextStore \<Rightarrow> bool" where
  "holds sid ctx lo st =
     (memory_store st sid = Some ctx \<and>
      (case memory_timestamps st sid of None \<Rightarrow> False | Some ts \<Rightarrow> lo \<le> ts))"

text \<open>
  For the sliding expiry: \<open>get_many\<close> is a series of reads of one session, each with its
  two clock readings; the series is \<open>spaced\<close> when each read comes no later than the TTL
  after the timestamp left by the one before. A call leaves a session \<open>untouched\<close> when
  it is for another session or is a sweep, and is \<open>no_write\<close> when it does not write the
  session. \<open>stale\<close> and \<open>gone\<close> are the invariants of the expiry proof.
\<close>

fun get_many :: "(real \<times> real) list \<Rightarrow> session_id \<Rightarrow> ContextStore \<Rightarrow> pydict option list \<times> ContextStore" where
  "get_many [] sid st = ([], st)"
| "get_many ((t1, t2) # ts) sid st =
     (let (r, st1) = get_context t1 t2 sid st;
          (rs, st2) = get_many ts sid st1
      in (r # rs, st2))"

fun spaced :: "real \<Rightarrow> real \<Rightarrow> (real \<times> real) list \<Rightarrow> bool" where
  "spaced ttl stamp [] = True"
| "spaced ttl stamp ((t1, t2) # ts) = (t1 - stamp \<le> ttl \<and> spaced ttl t2 ts)"

fun untouched :: "session_id \<Rightarrow> store_call \<Rightarrow> bool" where
  "untouched sid (CallStore t1 t2 s ctx) = (s \<noteq> sid)"
| "untouched sid (CallGet t1 t2 s) = (s \<noteq> sid)"
| "untouched sid (CallUpdate t1 t2 t3 t4 s d) = (s \<noteq> sid)"
| "untouched sid (CallDelete s) = (s \<noteq> sid)"
| "untouched sid (CallClean t) = True"

fun no_write :: "session_id \<Rightarrow> store_call \<Rightarrow> bool" where
  "no_write sid (CallStore t1 t2 s ctx) = (s \<noteq> sid)"
| "no_write sid (CallGet t1 t2 s) = True"
| "no_write sid (CallUpdate t1 t2 t3 t4 s d) = (s \<noteq> sid)"
| "no_write sid (CallDelete s) = True"
| "no_write sid (CallClean t) = True"

definition stale :: "session_id \<Rightarrow> real \<Rightarrow> ContextStore \<Rightarrow> bool" where
  "stale sid stamp st = (memory_timestamps st sid = None \<or> memory_timestamps st sid = Some stamp)"

definition gone :: "session_id \<Rightarrow> ContextStore \<Rightarrow> bool" where
  "gone sid st = (memory_store st sid = None \<or> memory_timestamps st sid = None)"

text \<open>A store with one session, written at clock reading 0, and a TTL of 100 seconds.\<close>

definition session_at_0 :: ContextStore where
  "session_at_0 =
     \<lparr>context_ttl = 100,
      memory_store = [''s1'' \<mapsto> [''github'' \<mapsto> PStr ''x'']],
      memory_timestamps = [''s1'' \<mapsto> 0]\<rparr>"

section \<open>Properties of the store\<close>

lemma keys_agree_init: "keys_agree (init_memory_store ttl)"
  by (simp add: keys_agree_def init_memory_store_def)

lemma keys_agree_clean:
  "keys_agree st \<Longrightarrow> keys_agree (clean_expired_sessions t st)"
  by (auto simp: keys_agree_def clean_expired_sessions_def dom_def split: if_splits)

lemma keys_agree_store:
  "keys_agree st \<Longrightarrow> keys_agree (snd (store_context t1 t2 sid ctx st))"
proof -
  assume a: "keys_agree st"
  let ?st1 = "st\<lparr>memory_store := (memory_store st)(sid \<mapsto> ctx),
                 memory_timestamps := (memory_timestamps st)(sid \<mapsto> t1)\<rparr>"
  from a have "keys_agree ?st1" by (simp add: keys_agree_def)
  then show ?thesis
    by (simp add: store_context_def Let_def keys_agree_clean)
qed

lemma keys_agree_get:
  "keys_agree st \<Longrightarrow> keys_agree (snd (get_context t1 t2 sid st))"
  by (auto simp: keys_agree_def get_context_def split: option.splits)

lemma keys_agree_delete:
  "keys_agree st \<Longrightarrow> keys_agree (snd (delete_context sid st))"
  by (auto simp: keys_agree_def delete_context_def)

lemma keys_agree_update:
  "keys_agree st \<Longrightarrow> keys_agree (snd (update_context t1 t2 t3 t4 sid d st))"
proof -
  assume a: "keys_agree st"
  obtain r st1 where g: "get_context t1 t2 sid st = (r, st1)" by (cases "get_context t1 t2 sid st")
  with keys_agree_get [OF a, of t1 t2 sid] have "keys_agree st1" by simp
  then show ?thesis
    by (simp add: update_context_def g keys_agree_store)
qed

lemma keys_agree_do_call: "keys_agree st \<Longrightarrow> keys_agree (do_call c st)"
  by (cases c)
    (simp_all add: keys_agree_store keys_agree_get keys_agree_update keys_agree_delete
      keys_agree_clean)

lemma keys_agree_do_calls: "keys_agree st \<Longrightarrow> keys_agree (do_calls cs st)"
  unfolding do_calls_def
  by (induction cs arbitrary: st) (simp_all add: keys_agree_do_call)

text \<open>
  C10. Starting from the empty in-memory store, after every sequence of calls of
  \<^verbatim>\<open>store_context\<close>, \<^verbatim>\<open>get_context\<close>, \<^verbatim>\<open>update_context\<close>, \<^verbatim>\<open>delete_context\<close> and the
  expiry sweep, at any clock readings, the data dictionary and the timestamp
  dictionary have the same set of session identifiers as keys.
\<close>

theorem store_keys_agree:
  "dom (memory_store (do_calls cs (init_memory_store ttl))) =
   dom (memory_timestamps (do_calls cs (init_memory_store ttl)))"
  using keys_agree_do_calls [of "init_memory_store ttl" cs] keys_agree_init [of ttl]
  by (simp add: keys_agree_def)

lemma context_ttl_clean [simp]: "context_ttl (clean_expired_sessions t st) = context_ttl st"
  by (simp add: clean_expired_sessions_def)

lemma context_ttl_store [simp]: "context_ttl (snd (store_context t1 t2 sid ctx st)) = context_ttl st"
  by (simp add: store_context_def Let_def)

lemma context_ttl_get [simp]: "context_ttl (snd (get_context t1 t2 sid st)) = context_ttl st"
  by (simp add: get_context_def split: option.splits)

lemma context_ttl_delete [simp]: "context_ttl (snd (delete_context sid st)) = context_ttl st"
  by (simp add: delete_context_def)

lemma context_ttl_update [simp]:
  "context_ttl (snd (update_context t1 t2 t3 t4 sid d st)) = context_ttl st"
proof -
  obtain r st1 where g: "get_context t1 t2 sid st = (r, st1)" by (cases "get_context t1 t2 sid st")
  then have "context_ttl st1 = context_ttl st" using context_ttl_get [of t1 t2 sid st] by simp
  then show ?thesis by (simp add: update_context_def g)
qed

lemma context_ttl_do_call [simp]: "context_ttl (do_call c st) = context_ttl st"
  by (cases c) simp_all

lemma context_ttl_do_calls [simp]: "context_ttl (do_calls cs st) = context_ttl st"
  unfolding do_calls_def by (induction cs arbitrary: st) simp_all

lemma holds_clean:
  "holds sid ctx lo st \<Longrightarrow> t \<le> hi \<Longrightarrow> hi - lo < real_of_int (context_ttl st) \<Longrightarrow>
   holds sid ctx lo (clean_expired_sessions t st)"
  by (auto simp: holds_def clean_expired_sessions_def expired_def split: option.splits)

lemma holds_store_other:
  "holds sid ctx lo st \<Longrightarrow> s \<noteq> sid \<Longrightarrow> t2 \<le> hi \<Longrightarrow> hi - lo < real_of_int (context_ttl st) \<Longrightarrow>
   holds sid ctx lo (snd (store_context t1 t2 s c st))"
proof -
  assume a: "holds sid ctx lo st" "s \<noteq> sid" "t2 \<le> hi" "hi - lo < real_of_int (context_ttl st)"
  let ?st1 = "st\<lparr>memory_store := (memory_store st)(s \<mapsto> c),
                 memory_timestamps := (memory_timestamps st)(s \<mapsto> t1)\<rparr>"
  from a have h: "holds sid ctx lo ?st1" by (simp add: holds_def)
  have "holds sid ctx lo (clean_expired_sessions t2 ?st1)"
    by (rule holds_clean [OF h a(3)]) (use a in simp)
  with h show ?thesis by (simp add: store_context_def Let_def)
qed

lemma holds_store_same:
  "t2 - t1 \<le> real_of_int (context_ttl st) \<Longrightarrow> lo \<le> t1 \<Longrightarrow>
   holds sid ctx lo (snd (store_context t1 t2 sid ctx st))"
  by (simp add: store_context_def Let_def holds_def clean_expired_sessions_def expired_def)

lemma holds_get:
  "holds sid ctx lo st \<Longrightarrow> t1 \<le> hi \<Longrightarrow> lo \<le> t2 \<Longrightarrow> hi - lo < real_of_int (context_ttl st) \<Longrightarrow>
   holds sid ctx lo (snd (get_context t1 t2 s st))"
  by (auto simp: holds_def get_context_def split: option.splits)

lemma holds_get_result:
  "holds sid ctx lo st \<Longrightarrow> t1 \<le> hi \<Longrightarrow> hi - lo < real_of_int (context_ttl st) \<Longrightarrow>
   fst (get_context t1 t2 sid st) = Some ctx"
  by (auto simp: holds_def get_context_def split: option.splits)

lemma holds_delete_other:
  "holds sid ctx lo st \<Longrightarrow> s \<noteq> sid \<Longrightarrow> holds sid ctx lo (snd (delete_context s st))"
  by (simp add: holds_def delete_context_def)

lemma holds_update_other:
  assumes "holds sid ctx lo st" "s \<noteq> sid" "t1 \<le> hi" "lo \<le> t2" "t4 \<le> hi"
    "hi - lo < real_of_int (context_ttl st)"
  shows "holds sid ctx lo (snd (update_context t1 t2 t3 t4 s d st))"
proof -
  obtain r st1 where g: "get_context t1 t2 s st = (r, st1)" by (cases "get_context t1 t2 s st")
  have h1: "holds sid ctx lo st1"
    using holds_get [OF assms(1) assms(3) assms(4) assms(6), of s] g by simp
  have ttl: "context_ttl st1 = context_ttl st" using context_ttl_get [of t1 t2 s st] g by simp
  have "holds sid ctx lo (snd (store_context t3 t4 s (or_empty r ++ d) st1))"
    by (rule holds_store_other [OF h1 assms(2) assms(5)]) (simp add: ttl assms(6))
  then show ?thesis by (simp add: update_context_def g)
qed

lemma holds_do_call:
  "holds sid ctx lo st \<Longrightarrow> quiet sid lo hi c \<Longrightarrow> hi - lo < real_of_int (context_ttl st) \<Longrightarrow>
   holds sid ctx lo (do_call c st)"
  by (cases c)
    (auto simp: in_window_def intro: holds_store_other holds_get holds_update_other
       holds_delete_other holds_clean)

lemma holds_do_calls:
  "holds sid ctx lo st \<Longrightarrow> list_all (quiet sid lo hi) cs \<Longrightarrow>
   hi - lo < real_of_int (context_ttl st) \<Longrightarrow> holds sid ctx lo (do_calls cs st)"
  unfolding do_calls_def
proof (induction cs arbitrary: st)
  case Nil
  then show ?case by simp
next
  case (Cons c cs)
  from Cons.prems have h: "holds sid ctx lo (do_call c st)"
    by (auto intro: holds_do_call)
  show ?case
    using Cons.IH [OF h] Cons.prems by simp
qed

text \<open>
  C8. Round trip. After \<^verbatim>\<open>store_context\<close> has written a context for a session at clock
  reading \<open>t0\<close> (it reports success), and after any calls that neither write, update nor
  delete that session (reads of it, calls for other sessions and sweeps may intervene),
  a \<^verbatim>\<open>get_context\<close> whose clock reading \<open>t\<close> is less than the TTL after \<open>t0\<close>
  returns exactly the context written. The clock readings in between lie between
  \<open>t0\<close> and \<open>t\<close>.
\<close>

theorem store_round_trip:
  assumes "list_all (quiet sid t0 t) cs"
    and "t0' \<le> t" and "t - t0 < real_of_int (context_ttl st)"
  shows "fst (store_context t0 t0' sid ctx st) = True \<and>
         fst (get_context t t' sid (do_calls cs (snd (store_context t0 t0' sid ctx st)))) = Some ctx"
proof -
  let ?st1 = "snd (store_context t0 t0' sid ctx st)"
  have h1: "holds sid ctx t0 ?st1"
    by (rule holds_store_same) (use assms in simp_all)
  have ttl: "t - t0 < real_of_int (context_ttl ?st1)" using assms(3) by simp
  have "holds sid ctx t0 (do_calls cs ?st1)"
    by (rule holds_do_calls [OF h1 assms(1) ttl])
  then have "fst (get_context t t' sid (do_calls cs ?st1)) = Some ctx"
    by (rule holds_get_result [where hi = t]) (use assms in simp_all)
  then show ?thesis by (simp add: store_context_def Let_def)
qed

theorem store_round_trip_witness:
  "fst (get_context 100 101 ''s1''
     (do_calls [CallGet 10 11 ''s1'', CallStore 20 21 ''s2'' Map.empty, CallClean 30]
        (snd (store_context 0 1 ''s1'' [''github'' \<mapsto> PStr ''x''] (init_memory_store 3600)))))
   = Some [''github'' \<mapsto> PStr ''x'']"
  using store_round_trip [of "''s1''" 0 100 "[CallGet 10 11 ''s1'', CallStore 20 21 ''s2'' Map.empty, CallClean 30]"
      1 "init_memory_store 3600" "[''github'' \<mapsto> PStr ''x'']" 101]
  by (simp add: in_window_def init_memory_store_def)

lemma get_refreshes:
  "memory_store st sid = Some ctx \<Longrightarrow> memory_timestamps st sid = Some stamp \<Longrightarrow>
   t1 - stamp \<le> real_of_int (context_ttl st) \<Longrightarrow>
   get_context t1 t2 sid st = (Some ctx, st\<lparr>memory_timestamps := (memory_timestamps st)(sid \<mapsto> t2)\<rparr>)"
  by (simp add: get_context_def)

lemma get_many_alive:
  "memory_store st sid = Some ctx \<Longrightarrow> memory_timestamps st sid = Some stamp \<Longrightarrow>
   spaced (real_of_int (context_ttl st)) stamp ts \<Longrightarrow>
   fst (get_many ts sid st) = replicate (length ts) (Some ctx)"
proof (induction ts arbitrary: st stamp)
  case Nil
  then show ?case by simp
next
  case (Cons p ts)
  obtain t1 t2 where p: "p = (t1, t2)" by (cases p)
  let ?st1 = "st\<lparr>memory_timestamps := (memory_timestamps st)(sid \<mapsto> t2)\<rparr>"
  from Cons.prems p have g: "get_context t1 t2 sid st = (Some ctx, ?st1)"
    by (simp add: get_refreshes)
  have "fst (get_many ts sid ?st1) = replicate (length ts) (Some ctx)"
    by (rule Cons.IH [where stamp = t2]) (use Cons.prems p in simp_all)
  then show ?case by (auto simp: p g split: prod.splits)
qed

lemma put_resets:
  "t2 - t1 \<le> real_of_int (context_ttl st) \<Longrightarrow>
   memory_timestamps (snd (store_context t1 t2 sid ctx st)) sid = Some t1"
  by (simp add: store_context_def Let_def clean_expired_sessions_def expired_def)

lemma stale_clean: "stale sid stamp st \<Longrightarrow> stale sid stamp (clean_expired_sessions t st)"
  by (auto simp: stale_def clean_expired_sessions_def)

lemma stale_store: "stale sid stamp st \<Longrightarrow> s \<noteq> sid \<Longrightarrow> stale sid stamp (snd (store_context t1 t2 s c st))"
proof -
  assume a: "stale sid stamp st" "s \<noteq> sid"
  let ?st1 = "st\<lparr>memory_store := (memory_store st)(s \<mapsto> c),
                 memory_timestamps := (memory_timestamps st)(s \<mapsto> t1)\<rparr>"
  from a have h: "stale sid stamp ?st1" by (simp add: stale_def)
  then show ?thesis by (simp add: store_context_def Let_def stale_clean)
qed

lemma stale_get: "stale sid stamp st \<Longrightarrow> s \<noteq> sid \<Longrightarrow> stale sid stamp (snd (get_context t1 t2 s st))"
  by (auto simp: stale_def get_context_def split: option.splits)

lemma stale_delete: "stale sid stamp st \<Longrightarrow> stale sid stamp (snd (delete_context s st))"
  by (auto simp: stale_def delete_context_def)

lemma stale_update:
  assumes "stale sid stamp st" "s \<noteq> sid"
  shows "stale sid stamp (snd (update_context t1 t2 t3 t4 s d st))"
proof -
  obtain r st1 where g: "get_context t1 t2 s st = (r, st1)" by (cases "get_context t1 t2 s st")
  have "stale sid stamp st1" using stale_get [OF assms, of t1 t2] g by simp
  then show ?thesis by (simp add: update_context_def g stale_store assms(2))
qed

lemma stale_do_call: "stale sid stamp st \<Longrightarrow> untouched sid c \<Longrightarrow> stale sid stamp (do_call c st)"
  by (cases c) (simp_all add: stale_store stale_get stale_update stale_delete stale_clean)

lemma stale_do_calls: "stale sid stamp st \<Longrightarrow> list_all (untouched sid) cs \<Longrightarrow> stale sid stamp (do_calls cs st)"
  unfolding do_calls_def
  by (induction cs arbitrary: st) (simp_all add: stale_do_call)

lemma stale_get_none:
  "stale sid stamp st \<Longrightarrow> t1 - stamp > real_of_int (context_ttl st) \<Longrightarrow>
   fst (get_context t1 t2 sid st) = None \<and> gone sid (snd (get_context t1 t2 sid st))"
  by (auto simp: stale_def gone_def get_context_def split: option.splits)

lemma gone_clean: "gone sid st \<Longrightarrow> gone sid (clean_expired_sessions t st)"
  by (auto simp: gone_def clean_expired_sessions_def)

lemma gone_store: "gone sid st \<Longrightarrow> s \<noteq> sid \<Longrightarrow> gone sid (snd (store_context t1 t2 s c st))"
proof -
  assume a: "gone sid st" "s \<noteq> sid"
  let ?st1 = "st\<lparr>memory_store := (memory_store st)(s \<mapsto> c),
                 memory_timestamps := (memory_timestamps st)(s \<mapsto> t1)\<rparr>"
  from a have h: "gone sid ?st1" by (simp add: gone_def)
  then show ?thesis by (simp add: store_context_def Let_def gone_clean)
qed

lemma gone_get: "gone sid st \<Longrightarrow> gone sid (snd (get_context t1 t2 s st))"
  by (auto simp: gone_def get_context_def split: option.splits)

lemma gone_delete: "gone sid st \<Longrightarrow> gone sid (snd (delete_context s st))"
  by (auto simp: gone_def delete_context_def)

lemma gone_update:
  assumes "gone sid st" "s \<noteq> sid"
  shows "gone sid (snd (update_context t1 t2 t3 t4 s d st))"
proof -
  obtain r st1 where g: "get_context t1 t2 s st = (r, st1)" by (cases "get_context t1 t2 s st")
  have "gone sid st1" using gone_get [OF assms(1), of t1 t2 s] g by simp
  then show ?thesis by (simp add: update_context_def g gone_store assms(2))
qed

lemma gone_do_call: "gone sid st \<Longrightarrow> no_write sid c \<Longrightarrow> gone sid (do_call c st)"
  by (cases c) (simp_all add: gone_store gone_get gone_update gone_delete gone_clean)

lemma gone_do_calls: "gone sid st \<Longrightarrow> list_all (no_write sid) cs \<Longrightarrow> gone sid (do_calls cs st)"
  unfolding do_calls_def
  by (induction cs arbitrary: st) (simp_all add: gone_do_call)

lemma gone_get_none: "gone sid st \<Longrightarrow> fst (get_context t1 t2 sid st) = None"
  by (auto simp: gone_def get_context_def split: option.splits)

text \<open>
  C9. Sliding expiry. A successful \<^verbatim>\<open>get_context\<close> sets the session's timestamp to the
  clock reading of the refresh, and \<^verbatim>\<open>store_context\<close> sets it to the reading of the
  write; so a series of reads, each no later than the TTL after the timestamp left by the
  one before, returns the stored context every time, however long the series. A session
  whose timestamp is more than the TTL old when it is read, after any calls that did
  not touch it, is reported absent, and stays absent in every later read until it is
  written again.
\<close>

theorem sliding_ttl:
  "(memory_store st sid = Some ctx \<and> memory_timestamps st sid = Some stamp \<and>
      t1 - stamp \<le> real_of_int (context_ttl st) \<longrightarrow>
        fst (get_context t1 t2 sid st) = Some ctx \<and>
        memory_timestamps (snd (get_context t1 t2 sid st)) sid = Some t2) \<and>
   (p2 - p1 \<le> real_of_int (context_ttl st) \<longrightarrow>
        memory_timestamps (snd (store_context p1 p2 sid ctx' st)) sid = Some p1) \<and>
   (memory_store st sid = Some ctx \<and> memory_timestamps st sid = Some stamp \<and>
      spaced (real_of_int (context_ttl st)) stamp ts \<longrightarrow>
        fst (get_many ts sid st) = replicate (length ts) (Some ctx)) \<and>
   (memory_timestamps st sid = Some stamp \<and> list_all (untouched sid) cs \<and>
      u1 - stamp > real_of_int (context_ttl st) \<and> list_all (no_write sid) cs' \<longrightarrow>
        fst (get_context u1 u2 sid (do_calls cs st)) = None \<and>
        fst (get_context u3 u4 sid
               (do_calls cs' (snd (get_context u1 u2 sid (do_calls cs st))))) = None)"
proof (intro conjI impI)
  assume a: "memory_store st sid = Some ctx \<and> memory_timestamps st sid = Some stamp \<and>
      t1 - stamp \<le> real_of_int (context_ttl st)"
  then show "fst (get_context t1 t2 sid st) = Some ctx" by (simp add: get_refreshes)
  from a show "memory_timestamps (snd (get_context t1 t2 sid st)) sid = Some t2"
    by (simp add: get_refreshes)
next
  assume "p2 - p1 \<le> real_of_int (context_ttl st)"
  then show "memory_timestamps (snd (store_context p1 p2 sid ctx' st)) sid = Some p1"
    by (rule put_resets)
next
  assume "memory_store st sid = Some ctx \<and> memory_timestamps st sid = Some stamp \<and>
      spaced (real_of_int (context_ttl st)) stamp ts"
  then show "fst (get_many ts sid st) = replicate (length ts) (Some ctx)"
    by (simp add: get_many_alive)
next
  assume a: "memory_timestamps st sid = Some stamp \<and> list_all (untouched sid) cs \<and>
      u1 - stamp > real_of_int (context_ttl st) \<and> list_all (no_write sid) cs'"
  then have "stale sid stamp st" by (simp add: stale_def)
  with a have s: "stale sid stamp (do_calls cs st)" by (simp add: stale_do_calls)
  from a have "u1 - stamp > real_of_int (context_ttl (do_calls cs st))" by simp
  from stale_get_none [OF s this, of u2]
  have n: "fst (get_context u1 u2 sid (do_calls cs st)) = None"
    and g: "gone sid (snd (get_context u1 u2 sid (do_calls cs st)))" by simp_all
  from n show "fst (get_context u1 u2 sid (do_calls cs st)) = None" .
  from g a have "gone sid (do_calls cs' (snd (get_context u1 u2 sid (do_calls cs st))))"
    by (simp add: gone_do_calls)
  then show "fst (get_context u3 u4 sid
               (do_calls cs' (snd (get_context u1 u2 sid (do_calls cs st))))) = None"
    by (rule gone_get_none)
qed

theorem sliding_ttl_witness:
  "fst (get_context 90 91 ''s1'' session_at_0) = Some [''github'' \<mapsto> PStr ''x''] \<and>
   memory_timestamps (snd (get_context 90 91 ''s1'' session_at_0)) ''s1'' = Some 91 \<and>
   memory_timestamps (snd (store_context 5 6 ''s1'' Map.empty session_at_0)) ''s1'' = Some 5 \<and>
   fst (get_many [(90, 91), (181, 182), (272, 273)] ''s1'' session_at_0) =
     [Some [''github'' \<mapsto> PStr ''x''], Some [''github'' \<mapsto> PStr ''x''],
      Some [''github'' \<mapsto> PStr ''x'']] \<and>
   fst (get_context 101 102 ''s1'' (do_calls [CallStore 50 51 ''s2'' Map.empty] session_at_0)) = None \<and>
   fst (get_context 103 104 ''s1''
          (do_calls [CallGet 102 102 ''s1'']
             (snd (get_context 101 102 ''s1''
                (do_calls [CallStore 50 51 ''s2'' Map.empty] session_at_0))))) = None"
  using sliding_ttl [where st = session_at_0 and sid = "''s1''"
      and ctx = "[''github'' \<mapsto> PStr ''x'']" and stamp = 0 and ?t1.0 = 90 and ?t2.0 = 91
      and ?p1.0 = 5 and ?p2.0 = 6 and ctx' = Map.empty
      and ts = "[(90, 91), (181, 182), (272, 273)]"
      and cs = "[CallStore 50 51 ''s2'' Map.empty]" and ?u1.0 = 101 and ?u2.0 = 102
      and cs' = "[CallGet 102 102 ''s1'']" and ?u3.0 = 103 and ?u4.0 = 104]
  by (simp add: session_at_0_def)

section \<open>Properties of the orchestrator\<close>

lemma AgentState_dict_and_error [simp]:
  "AgentState_dict_and state ''error'' f = Inl (TypeError (multiple_values ''error''))"
  by (simp add: AgentState_dict_and_def AgentState_fields_def)

lemma AgentState_dict_and_current_agent [simp]:
  "AgentState_dict_and state ''current_agent'' f =
   Inl (TypeError (multiple_values ''current_agent''))"
  by (simp add: AgentState_dict_and_def AgentState_fields_def)

lemma parse_intent_raises:
  "parse_intent self n state = Inl (TypeError (multiple_values ''error''))"
  by (simp add: parse_intent_def parse_intent_try_def split: sum.splits)

lemma workflow_invoke_raises:
  "workflow_invoke self state =
   Some ([Node_parse_intent], Inl (TypeError (multiple_values ''error'')))"
  by (simp add: workflow_invoke_def invoke_from.simps [of self 0 Node_parse_intent]
      parse_intent_raises)

lemma run_agent_success:
  assumes "run_agent name label self n state = Inr state'"
  shows "\<exists>run agent_result.
           agents self name = Some run \<and>
           run n (user_input state) (context state) = Inr agent_result \<and>
           state' = \<lparr>user_input = user_input state,
                     context = context state ++
                       fragment_of (dict_get agent_result ''context'' (PDict Map.empty)),
                     history = history state @
                       [\<lparr>entry_agent = name, entry_input = user_input state,
                         entry_output = dict_get agent_result ''response'' (PStr [])\<rparr>],
                     current_agent = Some name,
                     output = Some agent_result,
                     error = None\<rparr>"
  using assms
  by (auto simp: run_agent_def run_agent_try_def dict_update_def fragment_of_def
      split: sum.splits option.splits pyval.splits if_splits)

text \<open>
  C7. Shallow merge and history. Whenever an agent runner returns a state (the dispatch
  succeeded), the handler has returned a dictionary; with \<open>fragment\<close> the context
  fragment of that dictionary (its entry context, or nothing when it has none), in
  the new context every key of \<open>fragment\<close> has the value that \<open>fragment\<close> gives it,
  whatever was nested under that key before, every other key has its old value, and
  the history is the old history with one entry for the agent, the input and the
  response at its end.
\<close>

theorem dispatch_merges_shallow:
  assumes "run_agent name label self n state = Inr state'"
  shows "\<exists>run agent_result fragment.
           agents self name = Some run \<and>
           run n (user_input state) (context state) = Inr agent_result \<and>
           fragment = fragment_of (dict_get agent_result ''context'' (PDict Map.empty)) \<and>
           (\<forall>k \<in> dom fragment. context state' k = fragment k) \<and>
           (\<forall>k. k \<notin> dom fragment \<longrightarrow> context state' k = context state k) \<and>
           history state' = history state @
             [\<lparr>entry_agent = name, entry_input = user_input state,
               entry_output = dict_get agent_result ''response'' (PStr [])\<rparr>]"
proof -
  from run_agent_success [OF assms] obtain run agent_result where
    r: "agents self name = Some run"
      "run n (user_input state) (context state) = Inr agent_result"
    and s: "state' = \<lparr>user_input = user_input state,
                     context = context state ++
                       fragment_of (dict_get agent_result ''context'' (PDict Map.empty)),
                     history = history state @
                       [\<lparr>entry_agent = name, entry_input = user_input state,
                         entry_output = dict_get agent_result ''response'' (PStr [])\<rparr>],
                     current_agent = Some name,
                     output = Some agent_result,
                     error = None\<rparr>"
    by blast
  define fragment where
    "fragment = fragment_of (dict_get agent_result ''context'' (PDict Map.empty))"
  have c1: "\<forall>k \<in> dom fragment. context state' k = fragment k"
    by (auto simp: s fragment_def map_add_def)
  have c2: "\<forall>k. k \<notin> dom fragment \<longrightarrow> context state' k = context state k"
    by (auto simp: s fragment_def map_add_def split: option.splits)
  have c3: "history state' = history state @
             [\<lparr>entry_agent = name, entry_input = user_input state,
               entry_output = dict_get agent_result ''response'' (PStr [])\<rparr>]"
    by (simp add: s)
  from r c1 c2 c3 fragment_def show ?thesis by blast
qed

lemma github_demo_dispatch:
  "run_github_agent github_demo 0 earlier_turn =
   Inr \<lparr>user_input = ''list open issues for owner/repo'',
        context = [''github'' \<mapsto> PDict [''open_issues'' \<mapsto> PInt 3], ''outreach'' \<mapsto> PInt 2],
        history = [\<lparr>entry_agent = ''github'',
                    entry_input = ''list open issues for owner/repo'',
                    entry_output = PStr ''3 open issues''\<rparr>],
        current_agent = Some ''github'',
        output = Some issues_envelope,
        error = None\<rparr>"
  by (auto simp: run_github_agent_def run_agent_def run_agent_try_def github_demo_def
      AgentOrchestrator_init_def issues_envelope_def earlier_turn_def fresh_turn_def
      dict_get_def dict_update_def map_add_def fun_eq_iff)

theorem dispatch_merges_shallow_witness:
  "\<exists>state'. run_github_agent github_demo 0 earlier_turn = Inr state' \<and>
      context state' ''github'' = Some (PDict [''open_issues'' \<mapsto> PInt 3]) \<and>
      context state' ''outreach'' = Some (PInt 2) \<and>
      history state' =
        [\<lparr>entry_agent = ''github'', entry_input = ''list open issues for owner/repo'',
          entry_output = PStr ''3 open issues''\<rparr>]"
proof -
  obtain state' where
    d: "run_agent ''github'' ''GitHub agent error: '' github_demo 0 earlier_turn = Inr state'"
    using github_demo_dispatch by (simp add: run_github_agent_def)
  from dispatch_merges_shallow [OF d] obtain run agent_result fragment where
    a: "agents github_demo ''github'' = Some run"
    and b: "run 0 (user_input earlier_turn) (context earlier_turn) = Inr agent_result"
    and c: "fragment = fragment_of (dict_get agent_result ''context'' (PDict Map.empty))"
    and m: "\<forall>k \<in> dom fragment. context state' k = fragment k"
    and u: "\<forall>k. k \<notin> dom fragment \<longrightarrow> context state' k = context earlier_turn k"
    and h: "history state' = history earlier_turn @
             [\<lparr>entry_agent = ''github'', entry_input = user_input earlier_turn,
               entry_output = dict_get agent_result ''response'' (PStr [])\<rparr>]"
    by blast
  from a have "run = (\<lambda>n query ctx. Inr issues_envelope)"
    by (simp add: github_demo_def AgentOrchestrator_init_def)
  with b have r: "agent_result = issues_envelope" by simp
  with c have f: "fragment = [''github'' \<mapsto> PDict [''open_issues'' \<mapsto> PInt 3]]"
    by (simp add: dict_get_def issues_envelope_def fragment_of_def)
  from m f have g: "context state' ''github'' = Some (PDict [''open_issues'' \<mapsto> PInt 3])"
    by simp
  from u f have "context state' ''outreach'' = context earlier_turn ''outreach''" by simp
  then have o: "context state' ''outreach'' = Some (PInt 2)"
    by (simp add: earlier_turn_def fresh_turn_def)
  from h r have hh: "history state' =
        [\<lparr>entry_agent = ''github'', entry_input = ''list open issues for owner/repo'',
          entry_output = PStr ''3 open issues''\<rparr>]"
    by (simp add: earlier_turn_def fresh_turn_def dict_get_def issues_envelope_def)
  from d g o hh show ?thesis by (auto simp: run_github_agent_def)
qed

text \<open>
  C4. The routing step raises. With a classifier that answers github, a registered name,
  \<^verbatim>\<open>_parse_intent\<close> does not return a state: the construction of the new state passes
  the keyword current\_agent twice, the handler of the exception passes the keyword
  error twice, and that \<^verbatim>\<open>TypeError\<close> leaves the function.
\<close>

theorem routing_step_raises:
  "parse_intent github_demo 0 (fresh_turn ''list open issues for owner/repo'' Map.empty) =
   Inl (TypeError (multiple_values ''error''))"
  by (simp add: parse_intent_def parse_intent_try_def github_demo_def
      AgentOrchestrator_init_def fresh_turn_def)

lemma run_workflow_raises:
  "run_workflow self t1 t2 t3 t4 uuid4 input sid store =
   Some (\<lparr>res_session_id = effective_session_id sid uuid4, res_output = None,
          res_error = Some (''Workflow error: '' @ multiple_values ''error''),
          res_agent_used = None\<rparr>,
         snd (get_context t1 t2 (effective_session_id sid uuid4) store),
         [CallGet t1 t2 (effective_session_id sid uuid4)],
         [Node_parse_intent])"
  by (simp add: run_workflow_def run_workflow_with_def workflow_invoke_raises Let_def
      split: prod.splits)

text \<open>
  C2. The scenario of the happy path: the classifier answers github and the github
  handler returns the response "3 open issues" with a context fragment and complete set.
  \<^verbatim>\<open>run_workflow\<close> returns the session identifier, no output, no agent and the error
  of the workflow; only parse\_intent has run, and the store has not been written.
\<close>

theorem happy_path_fails:
  "run_workflow github_demo 0 0 1 1 ''generated-id'' ''list open issues for owner/repo''
     (Some ''s1'') (init_memory_store 3600) =
   Some (\<lparr>res_session_id = ''s1'', res_output = None,
          res_error = Some (''Workflow error: '' @ multiple_values ''error''),
          res_agent_used = None\<rparr>,
         init_memory_store 3600, [CallGet 0 0 ''s1''], [Node_parse_intent])"
  by (simp add: run_workflow_raises effective_session_id_def get_context_def
      init_memory_store_def)

text \<open>
  The scenario without a route: the classifier answers weather. The validation resolves
  the name to \<^verbatim>\<open>None\<close>, and the error of the result is the error of the workflow, not a
  message about a capability that was not matched. With a graph that runs parse\_intent,
  finds no route and returns, the result has no error at all.
\<close>

theorem no_route_error_counterexample:
  "resolve_agent weather_demo ''weather'' = None \<and>
   run_workflow weather_demo 0 0 1 1 ''generated-id'' ''what is the weather''
     (Some ''s1'') (init_memory_store 3600) =
   Some (\<lparr>res_session_id = ''s1'', res_output = None,
          res_error = Some (''Workflow error: '' @ multiple_values ''error''),
          res_agent_used = None\<rparr>,
         init_memory_store 3600, [CallGet 0 0 ''s1''], [Node_parse_intent]) \<and>
   run_workflow_with no_route_workflow 0 0 1 1 ''generated-id'' ''what is the weather''
     (Some ''s1'') (init_memory_store 3600) =
   Some (\<lparr>res_session_id = ''s1'', res_output = None, res_error = None,
          res_agent_used = None\<rparr>,
         init_memory_store 3600, [CallGet 0 0 ''s1''], [Node_parse_intent])"
  by (simp add: run_workflow_raises effective_session_id_def get_context_def
      init_memory_store_def resolve_agent_def weather_demo_def AgentOrchestrator_init_def
      lower_def strip_def is_space_def lower_char_def run_workflow_with_def
      no_route_workflow_def or_empty_def Let_def)

text \<open>
  C3, amended. For every input for which the classifier returns a text that, stripped and
  in lower case, is not a key of the registry, the validation resolves the name to
  \<^verbatim>\<open>None\<close>, \<^verbatim>\<open>run_workflow\<close> returns a result whose agent and output are \<^verbatim>\<open>None\<close>, and
  no agent node has run.
\<close>

theorem no_route_no_dispatch:
  assumes "classifier self 0 input = Inr content"
    and "lower (strip content) \<notin> dom (agents self)"
  shows "resolve_agent self content = None \<and>
         (\<exists>res store' calls nodes.
            run_workflow self t1 t2 t3 t4 uuid4 input sid store = Some (res, store', calls, nodes) \<and>
            res_agent_used res = None \<and> res_output res = None \<and>
            set nodes \<subseteq> {Node_parse_intent})"
  using assms by (simp add: resolve_agent_def run_workflow_raises)

theorem no_route_no_dispatch_witness:
  "resolve_agent weather_demo ''weather'' = None \<and>
   (\<exists>res store' calls nodes.
      run_workflow weather_demo 0 0 1 1 ''generated-id'' ''what is the weather'' None
        (init_memory_store 3600) = Some (res, store', calls, nodes) \<and>
      res_agent_used res = None \<and> res_output res = None \<and>
      set nodes \<subseteq> {Node_parse_intent})"
proof -
  have c: "classifier weather_demo 0 ''what is the weather'' = Inr ''weather''"
    by (simp add: weather_demo_def AgentOrchestrator_init_def)
  have u: "lower (strip ''weather'') \<notin> dom (agents weather_demo)"
    by (simp add: weather_demo_def AgentOrchestrator_init_def lower_def strip_def
        is_space_def lower_char_def)
  show ?thesis by (rule no_route_no_dispatch [OF c u])
qed

lemma run_workflow_with_envelope:
  assumes "workflow (fresh_turn input
             (or_empty (fst (get_context t1 t2 (effective_session_id sid uuid4) store)))) =
           Some (nodes, outcome)"
  shows "\<exists>res store' calls.
           run_workflow_with workflow t1 t2 t3 t4 uuid4 input sid store =
             Some (res, store', calls, nodes) \<and>
           res_session_id res = effective_session_id sid uuid4 \<and>
           (case outcome of
              Inl e \<Rightarrow> res_error res = Some (''Workflow error: '' @ exn_str e) \<and>
                       res_output res = None \<and> res_agent_used res = None
            | Inr final_state \<Rightarrow> res_error res = error final_state \<and>
                       res_agent_used res = current_agent final_state)"
  using assms
  by (cases outcome)
    (auto simp: run_workflow_with_def fresh_turn_def Let_def split: prod.splits)

text \<open>
  C5. \<^verbatim>\<open>run_workflow\<close> always returns a result. For every orchestrator (every behaviour
  of the classifier and of the handlers, raising included), every state of the store,
  every input and session identifier, the run of the graph ends and \<^verbatim>\<open>run_workflow\<close>
  returns a result with the session identifier that was given or generated, the error
  set and the output \<^verbatim>\<open>None\<close>; nothing is raised to the caller. More generally, for
  every compiled graph: when its run raises, \<^verbatim>\<open>run_workflow\<close> returns a result with the
  session identifier, the error made from the exception, and no output and no agent.
\<close>

theorem run_workflow_returns_envelope:
  "(\<exists>res store' calls nodes.
      run_workflow self t1 t2 t3 t4 uuid4 input sid store = Some (res, store', calls, nodes) \<and>
      res_session_id res = effective_session_id sid uuid4 \<and>
      res_error res \<noteq> None \<and> res_output res = None) \<and>
   (workflow (fresh_turn input
       (or_empty (fst (get_context t1 t2 (effective_session_id sid uuid4) store)))) =
      Some (nodes, Inl e) \<longrightarrow>
    (\<exists>res store' calls.
       run_workflow_with workflow t1 t2 t3 t4 uuid4 input sid store =
         Some (res, store', calls, nodes) \<and>
       res_session_id res = effective_session_id sid uuid4 \<and>
       res_error res = Some (''Workflow error: '' @ exn_str e) \<and>
       res_output res = None \<and> res_agent_used res = None))"
proof (intro conjI impI)
  show "\<exists>res store' calls nodes.
      run_workflow self t1 t2 t3 t4 uuid4 input sid store = Some (res, store', calls, nodes) \<and>
      res_session_id res = effective_session_id sid uuid4 \<and>
      res_error res \<noteq> None \<and> res_output res = None"
    by (simp add: run_workflow_raises)
next
  assume w: "workflow (fresh_turn input
       (or_empty (fst (get_context t1 t2 (effective_session_id sid uuid4) store)))) =
      Some (nodes, Inl e)"
  from run_workflow_with_envelope [where workflow = workflow and input = input and ?t1.0 = t1
      and ?t2.0 = t2 and sid = sid and ?uuid4.0 = uuid4 and store = store and ?t3.0 = t3
      and ?t4.0 = t4, OF w]
  show "\<exists>res store' calls.
       run_workflow_with workflow t1 t2 t3 t4 uuid4 input sid store =
         Some (res, store', calls, nodes) \<and>
       res_session_id res = effective_session_id sid uuid4 \<and>
       res_error res = Some (''Workflow error: '' @ exn_str e) \<and>
       res_output res = None \<and> res_agent_used res = None"
    by simp
qed

theorem run_workflow_returns_envelope_witness:
  "(\<exists>res store' calls nodes.
      run_workflow github_demo 0 0 1 1 ''generated-id'' ''hello'' None (init_memory_store 3600) =
        Some (res, store', calls, nodes) \<and>
      res_session_id res = ''generated-id'' \<and>
      res_error res \<noteq> None \<and> res_output res = None) \<and>
   (\<exists>res store' calls.
       run_workflow_with failing_workflow 0 0 1 1 ''generated-id'' ''hello'' (Some ''s1'')
         (init_memory_store 3600) =
         Some (res, store', calls, [Node_parse_intent, Node_outreach]) \<and>
       res_session_id res = ''s1'' \<and>
       res_error res = Some ''Workflow error: boom'' \<and>
       res_output res = None \<and> res_agent_used res = None)"
proof -
  have w: "failing_workflow (fresh_turn ''hello''
       (or_empty (fst (get_context 0 0 (effective_session_id (Some ''s1'') ''generated-id'')
          (init_memory_store 3600))))) =
      Some ([Node_parse_intent, Node_outreach], Inl (Raised ''boom''))"
    by (simp add: failing_workflow_def)
  have a: "\<exists>res store' calls nodes.
      run_workflow github_demo 0 0 1 1 ''generated-id'' ''hello'' None (init_memory_store 3600) =
        Some (res, store', calls, nodes) \<and>
      res_session_id res = ''generated-id'' \<and>
      res_error res \<noteq> None \<and> res_output res = None"
    using run_workflow_returns_envelope [where self = github_demo and ?t1.0 = 0 and ?t2.0 = 0
        and ?t3.0 = 1 and ?t4.0 = 1 and ?uuid4.0 = "''generated-id''" and input = "''hello''"
        and sid = None and store = "init_memory_store 3600"]
    by (simp add: effective_session_id_def)
  have b: "\<exists>res store' calls.
       run_workflow_with failing_workflow 0 0 1 1 ''generated-id'' ''hello'' (Some ''s1'')
         (init_memory_store 3600) =
         Some (res, store', calls, [Node_parse_intent, Node_outreach]) \<and>
       res_session_id res = ''s1'' \<and>
       res_error res = Some ''Workflow error: boom'' \<and>
       res_output res = None \<and> res_agent_used res = None"
    using run_workflow_returns_envelope [where workflow = failing_workflow and ?t1.0 = 0
        and ?t2.0 = 0 and ?t3.0 = 1 and ?t4.0 = 1 and ?uuid4.0 = "''generated-id''"
        and input = "''hello''" and sid = "Some ''s1''" and store = "init_memory_store 3600"
        and nodes = "[Node_parse_intent, Node_outreach]" and e = "Raised ''boom''"] w
    by (simp add: effective_session_id_def)
  from a b show ?thesis by blast
qed







end
